theory Spec2Isabelle
  imports Complex_Main "HOL-Library.Multiset"
begin

section \<open>Python values and errors\<close>

text \<open>
  Python integers are modelled as \<open>int\<close>, Python floats as \<open>real\<close> (exact arithmetic:
  rounding is not modelled), lists as HOL lists. Every exception the modelled code can
  raise is a value of \<open>py_error\<close>; a function that may raise returns \<open>py_error + 'a\<close>.
\<close>

datatype py_error = ValueError | ZeroDivisionError | IndexError

text \<open>\<^verbatim>\<open>min(...)\<close> and \<^verbatim>\<open>max(...)\<close> over an iterable: \<^verbatim>\<open>ValueError\<close> when it is empty.\<close>

fun py_min :: "'a::linorder list \<Rightarrow> py_error + 'a" where
  "py_min [] = Inl ValueError"
| "py_min (x # xs) = Inr (fold min xs x)"

fun py_max :: "'a::linorder list \<Rightarrow> py_error + 'a" where
  "py_max [] = Inl ValueError"
| "py_max (x # xs) = Inr (fold max xs x)"

text \<open>
  \<^verbatim>\<open>max(xs, key=k)\<close>: the first element whose key is maximal (a later element replaces
  the current one only when its key is strictly greater).
\<close>

fun py_max_key :: "('a \<Rightarrow> nat) \<Rightarrow> 'a list \<Rightarrow> py_error + 'a" where
  "py_max_key k [] = Inl ValueError"
| "py_max_key k (x # xs) = Inr (fold (\<lambda>y best. if k best < k y then y else best) xs x)"

text \<open>\<^verbatim>\<open>int(x)\<close> on a float truncates towards zero.\<close>

definition py_int :: "real \<Rightarrow> int" where
  "py_int x = (if 0 \<le> x then \<lfloor>x\<rfloor> else \<lceil>x\<rceil>)"

text \<open>\<^verbatim>\<open>a / b\<close>: \<^verbatim>\<open>ZeroDivisionError\<close> when the divisor is zero.\<close>

definition py_div :: "real \<Rightarrow> real \<Rightarrow> py_error + real" where
  "py_div a b = (if b = 0 then Inl ZeroDivisionError else Inr (a / b))"

text \<open>
  A list comprehension whose element expression may raise: the elements are computed
  left to right and the first exception ends the comprehension.
\<close>

fun comprehension :: "('a \<Rightarrow> py_error + 'b) \<Rightarrow> 'a list \<Rightarrow> py_error + 'b list" where
  "comprehension f [] = Inr []"
| "comprehension f (x # xs) =
     (case f x of
        Inl e \<Rightarrow> Inl e
      | Inr y \<Rightarrow> (case comprehension f xs of Inl e \<Rightarrow> Inl e | Inr ys \<Rightarrow> Inr (y # ys)))"

text \<open>
  \<^verbatim>\<open>a, b = zip(*pairs)\<close>: \<^verbatim>\<open>zip(*pairs)\<close> yields the tuple of first components and the
  tuple of second components when \<^verbatim>\<open>pairs\<close> is not empty, and yields nothing when it is
  empty; unpacking nothing into two names raises \<^verbatim>\<open>ValueError\<close>.
\<close>

definition unpack_zip_star :: "('a \<times> 'b) list \<Rightarrow> py_error + ('a list \<times> 'b list)" where
  "unpack_zip_star pairs =
     (if pairs = [] then Inl ValueError else Inr (map fst pairs, map snd pairs))"

section \<open>The histogram object\<close>

text \<open>
  An \<^verbatim>\<open>HdrHistogram\<close> object of the hdrh library. The first six fields are the attributes
  that \<^verbatim>\<open>hdr_manipulation.py\<close> and \<^verbatim>\<open>hdr_tool.py\<close> read: \<open>tag\<close>, the two time stamps,
  \<open>min_value\<close>, \<open>max_value\<close> and \<open>total_count\<close>. The next three are the arguments that
  \<^verbatim>\<open>aggregateSlices\<close> passes to the constructor. The last one is the state the sources never
  read directly, modelled from the spec ("an internal bucketed-count structure"): the
  count of every bucket, by bucket index.
\<close>

record histogram =
  tag :: string
  start_time_stamp_msec :: real
  end_time_stamp_msec :: real
  min_value :: int
  max_value :: int
  total_count :: int
  lowest_trackable_value :: int
  highest_trackable_value :: int
  significant_figures :: int
  counts :: "nat \<Rightarrow> int"

text \<open>
  Modelled from the spec: the constructor \<^verbatim>\<open>HdrHistogram(lowest, highest, figures)\<close> of
  the hdrh library, which is not part of the sources. "Allocates a new histogram over
  range [1, floor(maxRaw)+1] at the given significant-figure precision": a histogram
  with that range and precision and no samples. The interval fields of a freshly
  allocated histogram are never read by the sources; they are zero here.
\<close>

definition HdrHistogram :: "int \<Rightarrow> int \<Rightarrow> int \<Rightarrow> histogram" where
  "HdrHistogram lowest highest figures =
     \<lparr>tag = [], start_time_stamp_msec = 0, end_time_stamp_msec = 0,
      min_value = 0, max_value = 0, total_count = 0,
      lowest_trackable_value = lowest, highest_trackable_value = highest,
      significant_figures = figures, counts = (\<lambda>i. 0)\<rparr>"

text \<open>
  Modelled from the spec: the method \<^verbatim>\<open>HdrHistogram.add(other)\<close> of the hdrh library,
  which is not part of the sources. "Merge-in of another histogram's counts" and
  "result's totalCount equals the sum of inputs' counts": every bucket count of
  \<open>other\<close> is added to the bucket of the receiver, and so is the total. The method
  mutates the receiver; the model returns the receiver's new value.
\<close>

definition add :: "histogram \<Rightarrow> histogram \<Rightarrow> histogram" where
  "add self other =
     self\<lparr>total_count := total_count self + total_count other,
          counts := (\<lambda>i. counts self i + counts other i)\<rparr>"

text \<open>
  One step of the iterator returned by \<^verbatim>\<open>get_linear_iterator\<close>: the fields that
  \<^verbatim>\<open>normalizedDistribution\<close> reads.
\<close>

record iteration_value =
  value_iterated_from :: real
  value_iterated_to :: real
  count_added_in_this_iter_step :: int
  percentile :: real

text \<open>
  The hdrh method \<^verbatim>\<open>get_linear_iterator(value_units_per_bucket)\<close> is not part of the
  sources: the functions below take it as a parameter, a function from the histogram
  and the bucket width to the finite list of steps the iterator yields.
\<close>

type_synonym linear_iterator = "histogram \<Rightarrow> real \<Rightarrow> iteration_value list"

text \<open>
  Modelled from the spec: what the data model says of a linear iteration, which the
  theorems about curves that integrate to 1 need. "Each step yields the bucket's value
  range and the count added in that step, plus the cumulative percentile reached at that
  step", and "bucket counts sum to totalCount": no count is negative, the counts of the
  steps add up to \<open>total_count\<close>, and the percentile of step \<open>i\<close> is the share of the samples
  counted by the steps \<open>0..i\<close>, in percent. \<open>cumulative_percentiles\<close> is the list of those
  shares.
\<close>

definition cumulative_percentiles :: "histogram \<Rightarrow> iteration_value list \<Rightarrow> real list" where
  "cumulative_percentiles h steps =
     map (\<lambda>i. 100 * real_of_int (sum_list (map count_added_in_this_iter_step (take (Suc i) steps)))
                / real_of_int (total_count h))
         [0..<length steps]"

text \<open>
  Modelled from the spec: the list of steps is a linear iteration of the histogram when
  the three conditions above hold.
\<close>

definition linear_iteration :: "histogram \<Rightarrow> iteration_value list \<Rightarrow> bool" where
  "linear_iteration h steps \<longleftrightarrow>
     list_all (\<lambda>s. 0 \<le> count_added_in_this_iter_step s) steps \<and>
     sum_list (map count_added_in_this_iter_step steps) = total_count h \<and>
     map percentile steps = cumulative_percentiles h steps"

section \<open>hdr\_manipulation.py\<close>

definition VALUE_FACTOR :: real where
  "VALUE_FACTOR = 1000000"

subsection \<open>Single-slice functions\<close>

definition sliceStartTimestamp :: "histogram \<Rightarrow> real" where
  "sliceStartTimestamp slice = start_time_stamp_msec slice"

definition sliceEndTimestamp :: "histogram \<Rightarrow> real" where
  "sliceEndTimestamp slice = end_time_stamp_msec slice"

definition sliceMaxValue :: "histogram \<Rightarrow> bool \<Rightarrow> real" where
  "sliceMaxValue slice rawFlag =
     (if rawFlag then real_of_int (max_value slice)
      else real_of_int (max_value slice) / VALUE_FACTOR)"

definition sliceMinValue :: "histogram \<Rightarrow> bool \<Rightarrow> real" where
  "sliceMinValue slice rawFlag =
     (if rawFlag then real_of_int (min_value slice)
      else real_of_int (min_value slice) / VALUE_FACTOR)"

definition sliceValueCount :: "histogram \<Rightarrow> int" where
  "sliceValueCount slice = total_count slice"

subsection \<open>Slice-list functions\<close>

definition slicesStartTimestamp :: "histogram list \<Rightarrow> py_error + real" where
  "slicesStartTimestamp slices = py_min (map sliceStartTimestamp slices)"

definition slicesEndTimestamp :: "histogram list \<Rightarrow> py_error + real" where
  "slicesEndTimestamp slices = py_max (map sliceEndTimestamp slices)"

definition slicesMinValue :: "histogram list \<Rightarrow> bool \<Rightarrow> py_error + real" where
  "slicesMinValue slices rawFlag = py_min (map (\<lambda>sl. sliceMinValue sl rawFlag) slices)"

definition slicesMaxValue :: "histogram list \<Rightarrow> bool \<Rightarrow> py_error + real" where
  "slicesMaxValue slices rawFlag = py_max (map (\<lambda>sl. sliceMaxValue sl rawFlag) slices)"

definition slicesCountNonempty :: "histogram list \<Rightarrow> int" where
  "slicesCountNonempty slices =
     sum_list (map (\<lambda>sl. if sliceValueCount sl > 0 then 1 else 0) slices)"

definition slicesValueCount :: "histogram list \<Rightarrow> int" where
  "slicesValueCount slices = sum_list (map sliceValueCount slices)"

subsection \<open>Utilities\<close>

text \<open>
  \<^verbatim>\<open>reduce(lambda _, b: fullHistogram.add(b), slices, None)\<close> calls \<^verbatim>\<open>add\<close> on the one
  object \<^verbatim>\<open>fullHistogram\<close> for every slice, first to last; the accumulator of the
  \<^verbatim>\<open>reduce\<close> is ignored. The model threads the value of \<^verbatim>\<open>fullHistogram\<close> through the
  calls.
\<close>

definition aggregateSlices :: "histogram list \<Rightarrow> int \<Rightarrow> py_error + histogram" where
  "aggregateSlices slices sigFigures =
     (case slicesMaxValue slices True of
        Inl e \<Rightarrow> Inl e
      | Inr metricMax \<Rightarrow>
          (let fullHistogram = HdrHistogram 1 (py_int (1 + metricMax)) sigFigures
           in Inr (fold (\<lambda>b fh. add fh b) slices fullHistogram)))"

subsection \<open>Extraction for plots\<close>

text \<open>
  The generator expression of \<^verbatim>\<open>normalizedDistribution\<close>: one pair (bucket midpoint,
  count added) for every step of the cursor whose percentile does not exceed
  \<^verbatim>\<open>max_percentile\<close>. In \<open>normalizedDistribution\<close> itself the division by \<^verbatim>\<open>vf\<close> cannot
  raise (\<^verbatim>\<open>vf\<close> is 1 or \<open>VALUE_FACTOR\<close>); the division by
  \<^verbatim>\<open>histogram.total_count * x_incr\<close> raises when that product is zero.
\<close>

definition selected_steps :: "real \<Rightarrow> iteration_value list \<Rightarrow> (real \<times> int) list" where
  "selected_steps max_percentile cursor =
     map (\<lambda>step. (0.5 * (value_iterated_from step + value_iterated_to step),
                   count_added_in_this_iter_step step))
         (filter (\<lambda>step. percentile step \<le> max_percentile) cursor)"

definition normalizedDistribution ::
  "linear_iterator \<Rightarrow> histogram \<Rightarrow> real \<Rightarrow> real \<Rightarrow> bool \<Rightarrow> py_error + (real list \<times> real list)" where
  "normalizedDistribution get_linear_iterator histogram x_incr max_percentile rawFlag =
     (let vf = (if rawFlag then 1 else VALUE_FACTOR);
          x_incr_rw = x_incr * vf
      in if sliceValueCount histogram > 0 then
           (let cursor = get_linear_iterator histogram x_incr_rw
            in case unpack_zip_star (selected_steps max_percentile cursor) of
                 Inl e \<Rightarrow> Inl e
               | Inr (xs0, ys0) \<Rightarrow>
                   (let xs = map (\<lambda>x. x / vf) xs0
                    in case comprehension
                              (\<lambda>y. py_div (real_of_int y)
                                      (real_of_int (total_count histogram) * x_incr)) ys0 of
                         Inl e \<Rightarrow> Inl e
                       | Inr ys \<Rightarrow> Inr (xs, ys)))
         else Inr ([], []))"

section \<open>hdr\_tool.py: the curves computed by main\<close>

text \<open>
  A curve is a pair of lists \<^verbatim>\<open>(xs, ys)\<close>. The part of \<^verbatim>\<open>main\<close> modelled here is the one
  that fills \<^verbatim>\<open>plotDataMap\<close>, after the command line has been read, the slices of the
  chosen metric have been loaded and \<^verbatim>\<open>xStep\<close> has been computed. Its state is the
  dictionary \<^verbatim>\<open>plotDataMap\<close> together with what has been printed so far, one string per
  call of \<^verbatim>\<open>print\<close>.
\<close>

type_synonym curve = "real list \<times> real list"

record main_state =
  plotDataMap :: "string \<rightharpoonup> curve list"
  printed :: "string list"

text \<open>The branch \<^verbatim>\<open>if args.baseplot\<close>.\<close>

definition main_baseplot ::
  "linear_iterator \<Rightarrow> histogram \<Rightarrow> real \<Rightarrow> real \<Rightarrow> bool \<Rightarrow> main_state \<Rightarrow> py_error + main_state" where
  "main_baseplot get_linear_iterator fullHistogram xStep max_percentile raw st =
     (case normalizedDistribution get_linear_iterator fullHistogram xStep max_percentile raw of
        Inl e \<Rightarrow> Inl e
      | Inr (xs, ys) \<Rightarrow>
          Inr (st\<lparr>plotDataMap := (plotDataMap st)(''baseplot'' \<mapsto> [(xs, ys)]),
                  printed := printed st @ [''  * Calculating base plot ... '', ''done.'']\<rparr>))"

text \<open>
  The branch \<^verbatim>\<open>if args.stability\<close>. \<open>perSlicePlots0\<close> is the first list comprehension: one
  density curve per slice, an exception of \<^verbatim>\<open>normalizedDistribution\<close> ending it.
  \<open>perSlicePlots\<close> is the padding: \<^verbatim>\<open>fullXs\<close> is the longest x-sequence, and every curve
  becomes \<^verbatim>\<open>(fullXs, ys + [0] * (len(fullXs) - len(ys)))\<close>. In Python \<^verbatim>\<open>[0] * n\<close> is the
  empty list for every \<^verbatim>\<open>n \<le> 0\<close>, which is what \<open>replicate\<close> gives with the truncating
  subtraction of \<open>nat\<close>.
\<close>

definition perSlicePlots0 ::
  "linear_iterator \<Rightarrow> histogram list \<Rightarrow> real \<Rightarrow> real \<Rightarrow> bool \<Rightarrow> py_error + curve list" where
  "perSlicePlots0 get_linear_iterator slices xStep max_percentile raw =
     comprehension (\<lambda>sl. normalizedDistribution get_linear_iterator sl xStep max_percentile raw)
       slices"

definition perSlicePlots :: "curve list \<Rightarrow> py_error + curve list" where
  "perSlicePlots plots0 =
     (case py_max_key length (map fst plots0) of
        Inl e \<Rightarrow> Inl e
      | Inr fullXs \<Rightarrow>
          Inr (map (\<lambda>(xs, ys). (fullXs, ys @ replicate (length fullXs - length ys) 0)) plots0))"

definition main_stability ::
  "linear_iterator \<Rightarrow> histogram list \<Rightarrow> real \<Rightarrow> real \<Rightarrow> bool \<Rightarrow> main_state \<Rightarrow> py_error + main_state" where
  "main_stability get_linear_iterator slices xStep max_percentile raw st =
     (if length slices > 1 then
        (case perSlicePlots0 get_linear_iterator slices xStep max_percentile raw of
           Inl e \<Rightarrow> Inl e
         | Inr plots0 \<Rightarrow>
             (case perSlicePlots plots0 of
                Inl e \<Rightarrow> Inl e
              | Inr plots \<Rightarrow>
                  Inr (st\<lparr>plotDataMap := (plotDataMap st)(''stability'' \<mapsto> plots),
                          printed := printed st
                            @ [''  * Calculating stability plot ... '', ''done.'']\<rparr>)))
      else
        Inr (st\<lparr>printed := printed st
                  @ [''*WARNING*: Nothing to plot for stability analysis.'']\<rparr>))"

text \<open>
  The branch \<^verbatim>\<open>if args.percentiles\<close>. \<open>percentilesPlot\<close> is the computation of
  \<^verbatim>\<open>(pxs, pys)\<close> from \<^verbatim>\<open>(bxs, bys)\<close>: the \<^verbatim>\<open>reduce\<close> is a left fold whose state is the
  pair of the running total and the list of the totals so far.
\<close>

definition percentilesPlot :: "curve \<Rightarrow> real \<Rightarrow> curve" where
  "percentilesPlot baseplot xStep =
     (case baseplot of
        (bxs, bys) \<Rightarrow>
          (let pys = bxs;
               pxs0 = snd (foldl (\<lambda>ac newval. (fst ac + newval, snd ac @ [fst ac + newval]))
                             (0, []) bys);
               pxs = map (\<lambda>x. x * xStep * 100) pxs0
           in (pxs, pys)))"

definition main_percentiles ::
  "linear_iterator \<Rightarrow> histogram \<Rightarrow> real \<Rightarrow> real \<Rightarrow> bool \<Rightarrow> main_state \<Rightarrow> py_error + main_state" where
  "main_percentiles get_linear_iterator fullHistogram xStep max_percentile raw st =
     (case (case plotDataMap st ''baseplot'' of
              Some plots \<Rightarrow> (case plots of [] \<Rightarrow> Inl IndexError | b # _ \<Rightarrow> Inr b)
            | None \<Rightarrow>
                normalizedDistribution get_linear_iterator fullHistogram xStep max_percentile raw) of
        Inl e \<Rightarrow> Inl e
      | Inr b \<Rightarrow>
          Inr (st\<lparr>plotDataMap := (plotDataMap st)(''percentiles'' \<mapsto> [percentilesPlot b xStep]),
                  printed := printed st @ [''  * Calculating percentile plot ... '', ''done.'']\<rparr>))"

section \<open>Example inputs\<close>

text \<open>
  Three slices of one metric and the steps a linear iteration of width 500 yields for
  each: \<open>slice_a\<close> has 60 samples in the first bucket and 40 in the second, \<open>slice_b\<close> has
  all its 50 samples in the first bucket, \<open>slice_empty\<close> has no sample.
\<close>

definition slice_a :: histogram where
  "slice_a =
     \<lparr>tag = ''read'', start_time_stamp_msec = 0, end_time_stamp_msec = 1000,
      min_value = 1, max_value = 900, total_count = 100,
      lowest_trackable_value = 1, highest_trackable_value = 3600000000,
      significant_figures = 3,
      counts = (\<lambda>i. if i = 0 then 60 else if i = 1 then 40 else 0)\<rparr>"

definition slice_b :: histogram where
  "slice_b =
     \<lparr>tag = ''read'', start_time_stamp_msec = 1000, end_time_stamp_msec = 2000,
      min_value = 1, max_value = 400, total_count = 50,
      lowest_trackable_value = 1, highest_trackable_value = 3600000000,
      significant_figures = 3,
      counts = (\<lambda>i. if i = 0 then 50 else 0)\<rparr>"

definition slice_empty :: histogram where
  "slice_empty =
     \<lparr>tag = ''read'', start_time_stamp_msec = 2000, end_time_stamp_msec = 3000,
      min_value = 0, max_value = 0, total_count = 0,
      lowest_trackable_value = 1, highest_trackable_value = 3600000000,
      significant_figures = 3,
      counts = (\<lambda>i. 0)\<rparr>"

definition steps_a :: "iteration_value list" where
  "steps_a =
     [\<lparr>value_iterated_from = 0, value_iterated_to = 500,
       count_added_in_this_iter_step = 60, percentile = 60\<rparr>,
      \<lparr>value_iterated_from = 500, value_iterated_to = 1000,
       count_added_in_this_iter_step = 40, percentile = 100\<rparr>]"

definition steps_b :: "iteration_value list" where
  "steps_b =
     [\<lparr>value_iterated_from = 0, value_iterated_to = 500,
       count_added_in_this_iter_step = 50, percentile = 100\<rparr>]"

definition example_iterator :: linear_iterator where
  "example_iterator h width =
     (if total_count h = 100 then steps_a else if total_count h = 50 then steps_b else [])"

definition empty_state :: main_state where
  "empty_state = \<lparr>plotDataMap = Map.empty, printed = []\<rparr>"

section \<open>Facts about the Python primitives\<close>

lemma py_max_Cons: "py_max (x # xs) = Inr (Max (set (x # xs)))"
  using Max.set_eq_fold [of x xs] by simp

lemma py_max_eq: "py_max xs = (if xs = [] then Inl ValueError else Inr (Max (set xs)))"
  using py_max_Cons by (cases xs) auto

lemma py_int_of_int: "py_int (1 + real_of_int m) = 1 + m"
  by (simp add: py_int_def)

lemma Max_of_int_image:
  assumes "finite A" "A \<noteq> {}"
  shows "Max (real_of_int ` A) = real_of_int (Max A)"
  using assms by (simp add: mono_Max_commute [symmetric] monoI)

lemma comprehension_all2:
  "comprehension f xs = Inr ys \<Longrightarrow> list_all2 (\<lambda>x y. f x = Inr y) xs ys"
  by (induction xs arbitrary: ys) (auto split: sum.splits)

lemma comprehension_py_div:
  "b \<noteq> 0 \<Longrightarrow> comprehension (\<lambda>y. py_div (g y) b) ys = Inr (map (\<lambda>y. g y / b) ys)"
  by (induction ys) (simp_all add: py_div_def)

text \<open>
  The result of \<^verbatim>\<open>max(xs, key=k)\<close> is an element of the list with the greatest key, and
  every element before it has a strictly smaller key.
\<close>

lemma fold_first_max:
  fixes k :: "'a \<Rightarrow> nat"
  defines "f \<equiv> (\<lambda>y best. if k best < k y then y else best)"
  shows "\<exists>i<length (x # xs). fold f xs x = (x # xs) ! i \<and>
           (\<forall>j<length (x # xs). k ((x # xs) ! j) \<le> k (fold f xs x)) \<and>
           (\<forall>j<i. k ((x # xs) ! j) < k (fold f xs x))"
proof (induction xs rule: rev_induct)
  case Nil
  show ?case by simp
next
  case (snoc y xs)
  then obtain i where i: "i < length (x # xs)" "fold f xs x = (x # xs) ! i"
    and le: "\<forall>j<length (x # xs). k ((x # xs) ! j) \<le> k (fold f xs x)"
    and lt: "\<forall>j<i. k ((x # xs) ! j) < k (fold f xs x)"
    by blast
  let ?b = "fold f xs x"
  have nth_old: "\<And>j. j < length (x # xs) \<Longrightarrow> (x # xs @ [y]) ! j = (x # xs) ! j"
    by (metis append_Cons nth_append)
  have nth_new: "(x # xs @ [y]) ! length (x # xs) = y"
    by (metis append_Cons nth_append_length)
  show ?case
  proof (cases "k ?b < k y")
    case True
    then have res: "fold f (xs @ [y]) x = y"
      by (simp add: f_def)
    have "\<forall>j<length (x # xs @ [y]). k ((x # xs @ [y]) ! j) \<le> k y"
    proof (intro allI impI)
      fix j assume "j < length (x # xs @ [y])"
      then consider "j < length (x # xs)" | "j = length (x # xs)"
        by fastforce
      then show "k ((x # xs @ [y]) ! j) \<le> k y"
      proof cases
        case 1
        with le True nth_old [OF 1] show ?thesis
          by (metis less_imp_le order_trans)
      next
        case 2
        with nth_new show ?thesis by simp
      qed
    qed
    moreover have "\<forall>j<length (x # xs). k ((x # xs @ [y]) ! j) < k y"
      using le True nth_old by (metis le_less_trans)
    ultimately show ?thesis
      using res nth_new by (intro exI [of _ "length (x # xs)"]) simp
  next
    case False
    then have res: "fold f (xs @ [y]) x = ?b"
      by (simp add: f_def)
    have "\<forall>j<length (x # xs @ [y]). k ((x # xs @ [y]) ! j) \<le> k ?b"
    proof (intro allI impI)
      fix j assume "j < length (x # xs @ [y])"
      then consider "j < length (x # xs)" | "j = length (x # xs)"
        by fastforce
      then show "k ((x # xs @ [y]) ! j) \<le> k ?b"
      proof cases
        case 1
        with le nth_old [OF 1] show ?thesis by metis
      next
        case 2
        with nth_new False show ?thesis by simp
      qed
    qed
    moreover have "\<forall>j<i. k ((x # xs @ [y]) ! j) < k ?b"
      using lt i(1) nth_old by (metis less_trans)
    moreover have "(x # xs @ [y]) ! i = ?b"
      using i nth_old by metis
    ultimately show ?thesis
      using res i(1) by (intro exI [of _ i]) simp
  qed
qed

lemma py_max_key_first:
  assumes "xs \<noteq> []"
  shows "\<exists>m i. py_max_key k xs = Inr m \<and> i < length xs \<and> m = xs ! i \<and>
           (\<forall>j<length xs. k (xs ! j) \<le> k m) \<and> (\<forall>j<i. k (xs ! j) < k m)"
proof -
  from assms obtain y ys where xs: "xs = y # ys"
    by (cases xs) auto
  from fold_first_max [where k = k and x = y and xs = ys] show ?thesis
    unfolding xs by auto
qed

lemma of_int_sum_list: "real_of_int (sum_list cs) = sum_list (map real_of_int cs)"
  by (induction cs) simp_all

lemma sum_list_take_mono:
  fixes cs :: "int list"
  assumes "list_all (\<lambda>c. 0 \<le> c) cs" and "n \<le> m"
  shows "sum_list (take n cs) \<le> sum_list (take m cs)"
proof -
  from assms(2) have "take m cs = take n cs @ take (m - n) (drop n cs)"
    by (metis le_add_diff_inverse take_add)
  moreover have "0 \<le> sum_list (take (m - n) (drop n cs))"
    using assms(1)
    by (intro sum_list_nonneg) (auto simp add: list_all_iff dest!: in_set_takeD in_set_dropD)
  ultimately show ?thesis
    by simp
qed

section \<open>Aggregation\<close>

lemma slicesMaxValue_raw:
  "slices \<noteq> [] \<Longrightarrow>
   slicesMaxValue slices True = Inr (real_of_int (Max (max_value ` set slices)))"
  by (simp add: slicesMaxValue_def py_max_eq sliceMaxValue_def image_image
      Max_of_int_image [symmetric])

lemma fold_add_total_count:
  "total_count (fold (\<lambda>b fh. add fh b) slices h) =
   total_count h + sum_list (map total_count slices)"
  by (induction slices arbitrary: h) (simp_all add: add_def)

lemma fold_add_counts:
  "counts (fold (\<lambda>b fh. add fh b) slices h) i =
   counts h i + sum_list (map (\<lambda>s. counts s i) slices)"
  by (induction slices arbitrary: h) (simp_all add: add_def)

lemma fold_add_range:
  "lowest_trackable_value (fold (\<lambda>b fh. add fh b) slices h) = lowest_trackable_value h \<and>
   highest_trackable_value (fold (\<lambda>b fh. add fh b) slices h) = highest_trackable_value h \<and>
   significant_figures (fold (\<lambda>b fh. add fh b) slices h) = significant_figures h"
  by (induction slices arbitrary: h) (simp_all add: add_def)

lemma aggregateSlices_nonempty:
  "slices \<noteq> [] \<Longrightarrow>
   aggregateSlices slices sigFigures =
     Inr (fold (\<lambda>b fh. add fh b) slices
            (HdrHistogram 1 (1 + Max (max_value ` set slices)) sigFigures))"
  by (simp add: aggregateSlices_def slicesMaxValue_raw py_int_of_int)

lemma aggregateSlices_Nil: "aggregateSlices [] sigFigures = Inl ValueError"
  by (simp add: aggregateSlices_def slicesMaxValue_def)

lemma add_right_commute: "add (add h a) b = add (add h b) a"
  by (simp add: add_def fun_eq_iff)

lemma fold_add_mset:
  assumes "mset xs = mset ys"
  shows "fold (\<lambda>b fh. add fh b) xs = fold (\<lambda>b fh. add fh b) ys"
  by (rule fold_multiset_equiv [OF _ assms]) (simp add: fun_eq_iff add_right_commute)

lemma Max_over_nonempty_slices:
  assumes some: "\<exists>s\<in>set slices. 0 < total_count s"
    and zero: "\<forall>s\<in>set slices. \<not> 0 < total_count s \<longrightarrow> max_value s = 0"
    and nonneg: "\<forall>s\<in>set slices. 0 \<le> max_value s"
  shows "Max (max_value ` set slices) = Max (max_value ` {s \<in> set slices. 0 < total_count s})"
proof (rule antisym)
  let ?B = "{s \<in> set slices. 0 < total_count s}"
  from some obtain b where b: "b \<in> ?B" by auto
  have finB: "finite (max_value ` ?B)" by simp
  show "Max (max_value ` set slices) \<le> Max (max_value ` ?B)"
  proof (rule Max.boundedI)
    show "finite (max_value ` set slices)" by simp
    from some show "max_value ` set slices \<noteq> {}" by auto
    fix a assume "a \<in> max_value ` set slices"
    then obtain s where s: "s \<in> set slices" "a = max_value s" by auto
    show "a \<le> Max (max_value ` ?B)"
    proof (cases "0 < total_count s")
      case True
      with s have "a \<in> max_value ` ?B" by auto
      with finB show ?thesis by simp
    next
      case False
      with s zero have "a = 0" by auto
      also from b nonneg have "0 \<le> max_value b" by auto
      also from b finB have "max_value b \<le> Max (max_value ` ?B)" by (intro Max_ge) auto
      finally show ?thesis .
    qed
  qed
  show "Max (max_value ` ?B) \<le> Max (max_value ` set slices)"
    using b by (intro Max_mono) auto
qed

text \<open>
  Claim C2. For every non-empty series, \<open>aggregateSlices\<close> returns a histogram, and the
  \<open>total_count\<close> of that histogram is the sum of the \<open>total_count\<close> of the slices of the
  series.
\<close>

theorem aggregateSlices_total_count:
  "slices \<noteq> [] \<Longrightarrow>
   \<exists>h. aggregateSlices slices sigFigures = Inr h \<and>
       total_count h = sum_list (map total_count slices)"
  by (simp add: aggregateSlices_nonempty fold_add_total_count HdrHistogram_def)

theorem aggregateSlices_total_count_witness:
  "[slice_a, slice_b] \<noteq> [] \<and>
   (\<exists>h. aggregateSlices [slice_a, slice_b] 3 = Inr h \<and> total_count h = 150)"
proof -
  have ne: "[slice_a, slice_b] \<noteq> []"
    by simp
  have "sum_list (map total_count [slice_a, slice_b]) = 150"
    by (simp add: slice_a_def slice_b_def)
  with aggregateSlices_total_count [OF ne, of 3] ne show ?thesis
    by simp
qed

text \<open>
  Claim C3. Aggregation does not depend on the order of the slices: for every series and
  every permutation of it, \<open>aggregateSlices\<close> gives the same result on both, and when the
  series is not empty both results are histograms with the same bucket counts.
\<close>

theorem aggregateSlices_order_independent:
  assumes "mset permuted = mset slices"
  shows "aggregateSlices permuted sigFigures = aggregateSlices slices sigFigures \<and>
         (slices \<noteq> [] \<longrightarrow>
            (\<exists>h h'. aggregateSlices slices sigFigures = Inr h \<and>
                    aggregateSlices permuted sigFigures = Inr h' \<and>
                    counts h' = counts h))"
proof -
  have same: "aggregateSlices permuted sigFigures = aggregateSlices slices sigFigures"
  proof (cases "slices = []")
    case True
    with assms show ?thesis by simp
  next
    case False
    with assms have ne: "permuted \<noteq> []" by auto
    from assms have "set permuted = set slices"
      by (rule mset_eq_setD)
    with False ne fold_add_mset [OF assms] show ?thesis
      by (simp add: aggregateSlices_nonempty)
  qed
  moreover have "slices \<noteq> [] \<Longrightarrow> \<exists>h. aggregateSlices slices sigFigures = Inr h"
    by (simp add: aggregateSlices_nonempty)
  ultimately show ?thesis
    by auto
qed

theorem aggregateSlices_order_independent_witness:
  "mset [slice_b, slice_a] = mset [slice_a, slice_b] \<and>
   aggregateSlices [slice_b, slice_a] 3 = aggregateSlices [slice_a, slice_b] 3 \<and>
   (\<exists>h h'. aggregateSlices [slice_a, slice_b] 3 = Inr h \<and>
           aggregateSlices [slice_b, slice_a] 3 = Inr h' \<and>
           counts h' = counts h)"
proof -
  have perm: "mset [slice_b, slice_a] = mset [slice_a, slice_b]"
    by (simp add: add_mset_commute)
  have ne: "[slice_a, slice_b] \<noteq> []"
    by simp
  from aggregateSlices_order_independent [OF perm, of 3] perm ne show ?thesis
    by blast
qed

text \<open>
  Claim C6, as the code has it. \<open>aggregateSlices\<close> takes the maximum of \<open>max_value\<close> over
  all the slices of the series, empty ones included, and allocates the new histogram over
  the range from 1 to that maximum plus 1, at the given precision. It fails, with the
  \<^verbatim>\<open>ValueError\<close> of \<^verbatim>\<open>max\<close>, on the series that has no slice, and returns a histogram on
  every other series. The maximum over all the slices is the maximum over the non-empty
  ones when the series has a non-empty slice, the slices without samples report
  \<open>max_value = 0\<close> and no \<open>max_value\<close> is negative.
\<close>

theorem aggregateSlices_range:
  "aggregateSlices [] sigFigures = Inl ValueError \<and>
   (slices \<noteq> [] \<longrightarrow>
      (\<exists>h. aggregateSlices slices sigFigures = Inr h \<and>
           lowest_trackable_value h = 1 \<and>
           highest_trackable_value h = 1 + Max (max_value ` set slices) \<and>
           significant_figures h = sigFigures)) \<and>
   ((\<exists>s\<in>set slices. 0 < total_count s) \<and>
    (\<forall>s\<in>set slices. \<not> 0 < total_count s \<longrightarrow> max_value s = 0) \<and>
    (\<forall>s\<in>set slices. 0 \<le> max_value s) \<longrightarrow>
      Max (max_value ` set slices) = Max (max_value ` {s \<in> set slices. 0 < total_count s}))"
  using Max_over_nonempty_slices [of slices]
  by (auto simp add: aggregateSlices_Nil aggregateSlices_nonempty fold_add_range HdrHistogram_def)

theorem aggregateSlices_range_witness:
  "0 < total_count slice_a \<and> \<not> 0 < total_count slice_empty \<and> max_value slice_empty = 0 \<and>
   0 \<le> max_value slice_a \<and>
   (\<exists>h. aggregateSlices [slice_a, slice_empty] 3 = Inr h \<and>
       lowest_trackable_value h = 1 \<and>
       highest_trackable_value h = 901 \<and>
       significant_figures h = 3) \<and>
   Max (max_value ` {s \<in> set [slice_a, slice_empty]. 0 < total_count s}) = 900"
proof -
  have facts: "0 < total_count slice_a" "\<not> 0 < total_count slice_empty"
    "max_value slice_empty = 0" "0 \<le> max_value slice_a" "max_value slice_a = 900"
    by (simp_all add: slice_a_def slice_empty_def)
  have ne: "[slice_a, slice_empty] \<noteq> []"
    by simp
  have some: "\<exists>s\<in>set [slice_a, slice_empty]. 0 < total_count s"
    using facts by simp
  have zero: "\<forall>s\<in>set [slice_a, slice_empty]. \<not> 0 < total_count s \<longrightarrow> max_value s = 0"
    using facts by simp
  have nonneg: "\<forall>s\<in>set [slice_a, slice_empty]. 0 \<le> max_value s"
    using facts by simp
  have all: "Max (max_value ` set [slice_a, slice_empty]) = 900"
    using facts by simp
  from aggregateSlices_range [of 3 "[slice_a, slice_empty]"] ne some zero nonneg
  have "\<exists>h. aggregateSlices [slice_a, slice_empty] 3 = Inr h \<and>
           lowest_trackable_value h = 1 \<and>
           highest_trackable_value h = 1 + Max (max_value ` set [slice_a, slice_empty]) \<and>
           significant_figures h = 3"
    and "Max (max_value ` set [slice_a, slice_empty]) =
         Max (max_value ` {s \<in> set [slice_a, slice_empty]. 0 < total_count s})"
    by blast+
  with all facts show ?thesis
    by simp
qed

text \<open>
  A series whose only slice has no sample: no slice of the series has any sample, and
  \<open>aggregateSlices\<close> returns the freshly allocated histogram instead of failing.
\<close>

theorem aggregateSlices_all_empty_returns:
  "total_count slice_empty = 0 \<and> aggregateSlices [slice_empty] 3 = Inr (HdrHistogram 1 1 3)"
  by (simp add: aggregateSlices_nonempty slice_empty_def HdrHistogram_def add_def)

section \<open>Summary queries\<close>

text \<open>
  Claim C7. On the empty series the four minimum and maximum queries fail: \<^verbatim>\<open>min\<close> and
  \<^verbatim>\<open>max\<close> raise \<^verbatim>\<open>ValueError\<close> on an empty sequence, the error the specification calls
  EmptySeriesError. The two counting queries return 0.
\<close>

theorem empty_series_queries:
  "slicesStartTimestamp [] = Inl ValueError \<and>
   slicesEndTimestamp [] = Inl ValueError \<and>
   slicesMinValue [] rawFlag = Inl ValueError \<and>
   slicesMaxValue [] rawFlag = Inl ValueError \<and>
   slicesCountNonempty [] = 0 \<and>
   slicesValueCount [] = 0"
  by (simp add: slicesStartTimestamp_def slicesEndTimestamp_def slicesMinValue_def
      slicesMaxValue_def slicesCountNonempty_def slicesValueCount_def)

section \<open>The density curve\<close>

lemma normalizedDistribution_empty_selection:
  assumes "0 < total_count h"
    and "selected_steps max_percentile (it h (x_incr * (if rawFlag then 1 else VALUE_FACTOR))) = []"
  shows "normalizedDistribution it h x_incr max_percentile rawFlag = Inl ValueError"
  using assms by (simp add: normalizedDistribution_def sliceValueCount_def unpack_zip_star_def)

lemma normalizedDistribution_selected:
  assumes "0 < total_count h" and "x_incr \<noteq> 0"
    and "kept = filter (\<lambda>step. percentile step \<le> max_percentile)
                  (it h (x_incr * (if rawFlag then 1 else VALUE_FACTOR)))"
    and "kept \<noteq> []"
  shows "normalizedDistribution it h x_incr max_percentile rawFlag =
           Inr (map (\<lambda>step. 0.5 * (value_iterated_from step + value_iterated_to step)
                              / (if rawFlag then 1 else VALUE_FACTOR)) kept,
                map (\<lambda>step. real_of_int (count_added_in_this_iter_step step)
                              / (real_of_int (total_count h) * x_incr)) kept)"
proof -
  have nz: "real_of_int (total_count h) * x_incr \<noteq> 0"
    using assms(1,2) by simp
  show ?thesis
    using assms(1,4) unfolding assms(3)
    by (simp add: normalizedDistribution_def sliceValueCount_def unpack_zip_star_def
        selected_steps_def comprehension_py_div [OF nz] o_def Let_def)
qed

lemma normalizedDistribution_lengths:
  "normalizedDistribution it h x_incr max_percentile rawFlag = Inr (xs, ys) \<Longrightarrow>
   length xs = length ys"
  by (auto simp add: normalizedDistribution_def sliceValueCount_def unpack_zip_star_def Let_def
      split: if_splits sum.splits dest!: comprehension_all2 list_all2_lengthD)

lemma linear_iteration_nth:
  assumes "linear_iteration h steps" and "i < length steps"
  shows "percentile (steps ! i) =
           100 * real_of_int (sum_list (map count_added_in_this_iter_step (take (Suc i) steps)))
             / real_of_int (total_count h)"
proof -
  from assms(1) have "map percentile steps ! i = cumulative_percentiles h steps ! i"
    by (simp add: linear_iteration_def)
  with assms(2) show ?thesis
    by (simp add: cumulative_percentiles_def)
qed

lemma linear_iteration_percentile_le:
  assumes li: "linear_iteration h steps" and pos: "0 < total_count h" and s: "s \<in> set steps"
  shows "percentile s \<le> 100"
proof -
  from s obtain i where i: "i < length steps" "s = steps ! i"
    by (auto simp add: in_set_conv_nth)
  let ?cs = "map count_added_in_this_iter_step steps"
  from li have nonneg: "list_all (\<lambda>c. 0 \<le> c) ?cs" and total: "sum_list ?cs = total_count h"
    by (simp_all add: linear_iteration_def list_all_iff)
  from sum_list_take_mono [OF nonneg, of "Suc i" "length ?cs"] i(1)
  have "sum_list (take (Suc i) ?cs) \<le> total_count h"
    using total by simp
  then have "real_of_int (sum_list (map count_added_in_this_iter_step (take (Suc i) steps)))
             \<le> real_of_int (total_count h)"
    by (simp add: take_map)
  with pos have
    "100 * real_of_int (sum_list (map count_added_in_this_iter_step (take (Suc i) steps)))
       / real_of_int (total_count h) \<le> 100"
    by (simp add: divide_le_eq)
  with linear_iteration_nth [OF li i(1)] i(2) show ?thesis
    by simp
qed

lemma linear_iteration_percentile_mono:
  assumes li: "linear_iteration h steps" and pos: "0 < total_count h"
    and ij: "i \<le> j" "j < length steps"
  shows "percentile (steps ! i) \<le> percentile (steps ! j)"
proof -
  let ?cs = "map count_added_in_this_iter_step steps"
  from li have nonneg: "list_all (\<lambda>c. 0 \<le> c) ?cs"
    by (simp add: linear_iteration_def list_all_iff)
  from sum_list_take_mono [OF nonneg, of "Suc i" "Suc j"] ij
  have "real_of_int (sum_list (map count_added_in_this_iter_step (take (Suc i) steps)))
        \<le> real_of_int (sum_list (map count_added_in_this_iter_step (take (Suc j) steps)))"
    by (simp add: take_map)
  with pos have
    "100 * real_of_int (sum_list (map count_added_in_this_iter_step (take (Suc i) steps)))
       / real_of_int (total_count h)
     \<le> 100 * real_of_int (sum_list (map count_added_in_this_iter_step (take (Suc j) steps)))
       / real_of_int (total_count h)"
    by (simp add: divide_right_mono)
  with linear_iteration_nth [OF li] ij show ?thesis
    by simp
qed

lemma linear_iteration_steps_a: "linear_iteration slice_a steps_a"
  by (simp add: linear_iteration_def cumulative_percentiles_def slice_a_def steps_a_def
      upt_rec)

lemma linear_iteration_steps_b: "linear_iteration slice_b steps_b"
  by (simp add: linear_iteration_def cumulative_percentiles_def slice_b_def steps_b_def
      upt_rec)

lemma density_slice_a:
  "normalizedDistribution example_iterator slice_a 500 100 True =
     Inr ([250, 750], [3 / 2500, 1 / 1250])"
  by (simp add: normalizedDistribution_def sliceValueCount_def slice_a_def example_iterator_def
      steps_a_def selected_steps_def unpack_zip_star_def py_div_def)

lemma density_slice_b:
  "normalizedDistribution example_iterator slice_b 500 100 True = Inr ([250], [1 / 500])"
  by (simp add: normalizedDistribution_def sliceValueCount_def slice_b_def example_iterator_def
      steps_b_def selected_steps_def unpack_zip_star_def py_div_def)

text \<open>
  Claim C9. For a histogram without samples \<open>normalizedDistribution\<close> returns the empty
  curve and raises nothing, whatever the iterator, the bucket width, the percentile
  cut-off and the raw flag are.
\<close>

theorem normalizedDistribution_zero_samples:
  "total_count histogram = 0 \<Longrightarrow>
   normalizedDistribution get_linear_iterator histogram x_incr max_percentile rawFlag
     = Inr ([], [])"
  by (simp add: normalizedDistribution_def sliceValueCount_def)

theorem normalizedDistribution_zero_samples_witness:
  "total_count slice_empty = 0 \<and>
   normalizedDistribution example_iterator slice_empty 500 97.5 False = Inr ([], [])"
proof -
  have zero: "total_count slice_empty = 0"
    by (simp add: slice_empty_def)
  from normalizedDistribution_zero_samples [OF zero] zero show ?thesis
    by blast
qed

text \<open>
  Claim C1, at an input where the code departs from it. \<open>slice_b\<close> has 50 samples, all in
  the first bucket of width 500, so the only step of its linear iteration reaches the
  percentile 100. With the cut-off 97.5 no bucket is selected: the claim asks for a curve
  with one point per selected bucket, that is the empty curve, and the code raises
  \<^verbatim>\<open>ValueError\<close> when it unpacks the empty \<^verbatim>\<open>zip\<close>.
\<close>

theorem normalizedDistribution_raises_on_slice_b:
  "0 < total_count slice_b \<and>
   linear_iteration slice_b (example_iterator slice_b 500) \<and>
   normalizedDistribution example_iterator slice_b 500 97.5 True = Inl ValueError"
proof -
  have "example_iterator slice_b 500 = steps_b"
    by (simp add: example_iterator_def slice_b_def)
  moreover have "0 < total_count slice_b"
    by (simp add: slice_b_def)
  moreover have "normalizedDistribution example_iterator slice_b 500 97.5 True = Inl ValueError"
    by (simp add: normalizedDistribution_def sliceValueCount_def slice_b_def
        example_iterator_def steps_b_def selected_steps_def unpack_zip_star_def)
  ultimately show ?thesis
    using linear_iteration_steps_b by simp
qed

text \<open>
  Claim C10. \<open>normalizedDistribution\<close> is not total on histograms that have samples: there
  are a histogram with \<open>total_count > 0\<close>, a linear iteration of it, a positive bucket width
  and a cut-off (here \<open>slice_a\<close> and the cut-off 0) for which the percentile filter
  discards every bucket and the function raises \<^verbatim>\<open>ValueError\<close> on the unpacking of the
  empty \<^verbatim>\<open>zip\<close> instead of returning the empty curve.
\<close>

theorem normalizedDistribution_not_total:
  "\<exists>it h x_incr max_percentile rawFlag.
     0 < total_count h \<and> 0 < x_incr \<and>
     linear_iteration h (it h (x_incr * (if rawFlag then 1 else VALUE_FACTOR))) \<and>
     selected_steps max_percentile (it h (x_incr * (if rawFlag then 1 else VALUE_FACTOR))) = [] \<and>
     normalizedDistribution it h x_incr max_percentile rawFlag = Inl ValueError"
proof -
  have it: "example_iterator slice_a (500 * (if True then 1 else VALUE_FACTOR)) = steps_a"
    by (simp add: example_iterator_def slice_a_def)
  have pos: "0 < total_count slice_a"
    by (simp add: slice_a_def)
  have none: "selected_steps 0 steps_a = []"
    by (simp add: selected_steps_def steps_a_def)
  have "normalizedDistribution example_iterator slice_a 500 0 True = Inl ValueError"
    using pos none it by (intro normalizedDistribution_empty_selection) simp_all
  with it pos none linear_iteration_steps_a show ?thesis
    by (intro exI [of _ example_iterator] exI [of _ slice_a] exI [of _ 500] exI [of _ 0]
        exI [of _ True]) simp
qed

text \<open>
  The points of the curve. When the histogram has samples, the bucket width is not zero
  and at least one step of the iteration has a percentile that does not exceed the
  cut-off, \<open>normalizedDistribution\<close> returns one point per such step, in the order of the
  iteration: x is the midpoint of the bucket divided by the scale factor (1 with the raw
  flag, \<open>VALUE_FACTOR\<close> without), y is the count of the step divided by
  \<open>total_count * x_incr\<close>.
\<close>

theorem normalizedDistribution_points:
  assumes "0 < total_count h" and "x_incr \<noteq> 0"
    and "kept = filter (\<lambda>step. percentile step \<le> max_percentile)
                  (it h (x_incr * (if rawFlag then 1 else VALUE_FACTOR)))"
    and "kept \<noteq> []"
  shows "normalizedDistribution it h x_incr max_percentile rawFlag =
           Inr (map (\<lambda>step. 0.5 * (value_iterated_from step + value_iterated_to step)
                              / (if rawFlag then 1 else VALUE_FACTOR)) kept,
                map (\<lambda>step. real_of_int (count_added_in_this_iter_step step)
                              / (real_of_int (total_count h) * x_incr)) kept)"
  using assms by (rule normalizedDistribution_selected)

theorem normalizedDistribution_points_witness:
  "0 < total_count slice_a \<and>
   normalizedDistribution example_iterator slice_a 500 60 True = Inr ([250], [3 / 2500])"
proof -
  have it: "example_iterator slice_a (500 * (if True then 1 else VALUE_FACTOR)) = steps_a"
    by (simp add: example_iterator_def slice_a_def)
  have pos: "0 < total_count slice_a" and total: "total_count slice_a = 100"
    by (simp_all add: slice_a_def)
  have nz: "(500::real) \<noteq> 0"
    by simp
  have kept: "[hd steps_a] = filter (\<lambda>step. percentile step \<le> 60)
                  (example_iterator slice_a (500 * (if True then 1 else VALUE_FACTOR)))"
    unfolding it by (simp add: steps_a_def)
  have ne: "[hd steps_a] \<noteq> []"
    by simp
  from normalizedDistribution_points
         [where it = example_iterator and h = slice_a and rawFlag = True, OF pos nz kept ne]
       pos total
  show ?thesis
    by (simp add: steps_a_def)
qed

text \<open>
  The integral of the curve. For a histogram with samples, a positive bucket width and
  the cut-off 100, on a linear iteration (counts that are not negative and add up to
  \<open>total_count\<close>, cumulative percentiles) \<open>normalizedDistribution\<close> returns a curve with one
  point per step, and the sum of \<open>y * x_incr\<close> over its points is 1, in exact arithmetic.
\<close>

theorem normalizedDistribution_integral:
  assumes pos: "0 < total_count h" and width: "0 < x_incr"
    and li: "linear_iteration h (it h (x_incr * (if rawFlag then 1 else VALUE_FACTOR)))"
  shows "\<exists>xs ys. normalizedDistribution it h x_incr 100 rawFlag = Inr (xs, ys) \<and>
           length xs = length (it h (x_incr * (if rawFlag then 1 else VALUE_FACTOR))) \<and>
           length ys = length xs \<and>
           sum_list (map (\<lambda>y. y * x_incr) ys) = 1"
proof -
  let ?steps = "it h (x_incr * (if rawFlag then 1 else VALUE_FACTOR))"
  let ?T = "real_of_int (total_count h)"
  have keep: "filter (\<lambda>step. percentile step \<le> 100) ?steps = ?steps"
    using linear_iteration_percentile_le [OF li pos] by (simp add: filter_id_conv)
  from li have total: "sum_list (map count_added_in_this_iter_step ?steps) = total_count h"
    by (simp add: linear_iteration_def)
  with pos have ne: "?steps \<noteq> []"
    by auto
  from width have nz: "x_incr \<noteq> 0"
    by simp
  have run: "normalizedDistribution it h x_incr 100 rawFlag =
      Inr (map (\<lambda>step. 0.5 * (value_iterated_from step + value_iterated_to step)
                              / (if rawFlag then 1 else VALUE_FACTOR)) ?steps,
           map (\<lambda>step. real_of_int (count_added_in_this_iter_step step) / (?T * x_incr)) ?steps)"
    using normalizedDistribution_selected
            [where it = it and h = h and rawFlag = rawFlag, OF pos nz keep [symmetric]] ne keep
    by simp
  have "sum_list (map (\<lambda>y. y * x_incr)
          (map (\<lambda>step. real_of_int (count_added_in_this_iter_step step) / (?T * x_incr)) ?steps))
        = sum_list (map (\<lambda>step. real_of_int (count_added_in_this_iter_step step) * (1 / ?T)) ?steps)"
    using nz by (simp add: o_def)
  also have "\<dots> = sum_list (map (\<lambda>step. real_of_int (count_added_in_this_iter_step step)) ?steps)
                  * (1 / ?T)"
    by (rule sum_list_mult_const)
  also have "sum_list (map (\<lambda>step. real_of_int (count_added_in_this_iter_step step)) ?steps) = ?T"
    using total of_int_sum_list [of "map count_added_in_this_iter_step ?steps"]
    by (simp add: o_def)
  finally have "sum_list (map (\<lambda>y. y * x_incr)
          (map (\<lambda>step. real_of_int (count_added_in_this_iter_step step) / (?T * x_incr)) ?steps))
        = 1"
    using pos by simp
  with run show ?thesis
    by simp
qed

theorem normalizedDistribution_integral_witness:
  "0 < total_count slice_a \<and> (0::real) < 500 \<and>
   (\<exists>xs ys. normalizedDistribution example_iterator slice_a 500 100 True = Inr (xs, ys) \<and>
      length xs = 2 \<and> length ys = length xs \<and> sum_list (map (\<lambda>y. y * 500) ys) = 1)"
proof -
  have it: "example_iterator slice_a (500 * (if True then 1 else VALUE_FACTOR)) = steps_a"
    by (simp add: example_iterator_def slice_a_def)
  have pos: "0 < total_count slice_a"
    by (simp add: slice_a_def)
  have width: "(0::real) < 500"
    by simp
  have li: "linear_iteration slice_a
              (example_iterator slice_a (500 * (if True then 1 else VALUE_FACTOR)))"
    using linear_iteration_steps_a it by simp
  have "length steps_a = 2"
    by (simp add: steps_a_def)
  with normalizedDistribution_integral
         [where it = example_iterator and h = slice_a and rawFlag = True, OF pos width li]
       it pos
  show ?thesis
    by simp
qed

text \<open>
  The cut-offs that make \<open>normalizedDistribution\<close> raise. On a linear iteration of a
  histogram with samples the percentiles do not decrease, so a cut-off below the
  percentile of the first step discards every step, and the function raises
  \<^verbatim>\<open>ValueError\<close>.
\<close>

theorem normalizedDistribution_cutoff_below_first:
  assumes pos: "0 < total_count h"
    and steps: "steps = it h (x_incr * (if rawFlag then 1 else VALUE_FACTOR))"
    and li: "linear_iteration h steps"
    and ne: "steps \<noteq> []"
    and below: "max_percentile < percentile (hd steps)"
  shows "normalizedDistribution it h x_incr max_percentile rawFlag = Inl ValueError"
proof -
  have "\<not> percentile s \<le> max_percentile" if "s \<in> set steps" for s
  proof -
    from that obtain j where j: "j < length steps" "s = steps ! j"
      by (auto simp add: in_set_conv_nth)
    from linear_iteration_percentile_mono [OF li pos, of 0 j] j(1)
    have "percentile (steps ! 0) \<le> percentile (steps ! j)"
      by simp
    with below ne j(2) show ?thesis
      by (simp add: hd_conv_nth)
  qed
  then have "selected_steps max_percentile steps = []"
    by (simp add: selected_steps_def)
  with pos show ?thesis
    unfolding steps by (rule normalizedDistribution_empty_selection)
qed

theorem normalizedDistribution_cutoff_below_first_witness:
  "0 < total_count slice_a \<and> (59::real) < percentile (hd steps_a) \<and>
   normalizedDistribution example_iterator slice_a 500 59 True = Inl ValueError"
proof -
  have it: "steps_a = example_iterator slice_a (500 * (if True then 1 else VALUE_FACTOR))"
    by (simp add: example_iterator_def slice_a_def)
  have pos: "0 < total_count slice_a"
    by (simp add: slice_a_def)
  have ne: "steps_a \<noteq> []" and below: "(59::real) < percentile (hd steps_a)"
    by (simp_all add: steps_a_def)
  from normalizedDistribution_cutoff_below_first
         [where it = example_iterator and h = slice_a and rawFlag = True,
          OF pos it linear_iteration_steps_a ne below]
       pos below
  show ?thesis
    by simp
qed

section \<open>The percentile curve\<close>

lemma running_totals:
  "foldl (\<lambda>ac newval. (fst ac + newval, snd ac @ [fst ac + newval])) (t, acc) ys =
   (t + sum_list ys, acc @ map (\<lambda>i. t + sum_list (take (Suc i) ys)) [0..<length ys])"
proof (induction ys arbitrary: t acc)
  case Nil
  show ?case by simp
next
  case (Cons y ys)
  show ?case
    by (simp add: Cons.IH map_upt_Suc add.assoc del: upt_Suc)
qed

text \<open>
  Claim C4. For every density curve \<open>(xs, ys)\<close> the percentile curve is the pair
  \<open>(pxs, pys)\<close> in which \<open>pys\<close> is \<open>xs\<close> itself and \<open>pxs\<close> has one entry per entry of \<open>ys\<close>:
  entry \<open>i\<close> is the sum of \<open>ys\<close> up to and including index \<open>i\<close>, times the bucket width, times
  100.
\<close>

theorem percentilesPlot_prefix_sums:
  "percentilesPlot (xs, ys) xStep =
     (map (\<lambda>i. sum_list (take (Suc i) ys) * xStep * 100) [0..<length ys], xs)"
  using running_totals [of 0 "[]" ys] by (simp add: percentilesPlot_def o_def)

lemma percentilesPlot_example:
  "percentilesPlot ([250, 750], [3 / 2500, 1 / 1250]) 500 = ([60, 100], [250, 750])"
  by (simp add: percentilesPlot_def)

lemma main_percentiles_of_baseplot:
  "plotDataMap st ''baseplot'' = Some [b] \<Longrightarrow>
   main_percentiles it fullHistogram xStep max_percentile raw st =
     Inr (st\<lparr>plotDataMap := (plotDataMap st)(''percentiles'' \<mapsto> [percentilesPlot b xStep]),
             printed := printed st @ [''  * Calculating percentile plot ... '', ''done.'']\<rparr>)"
  by (simp add: main_percentiles_def)

section \<open>The stability curves\<close>

lemma perSlicePlots0_lengths:
  assumes "perSlicePlots0 it slices xStep max_percentile raw = Inr plots0"
  shows "length plots0 = length slices"
    and "\<forall>j<length plots0. length (fst (plots0 ! j)) = length (snd (plots0 ! j))"
proof -
  from assms have all2:
    "list_all2 (\<lambda>sl c. normalizedDistribution it sl xStep max_percentile raw = Inr c)
       slices plots0"
    unfolding perSlicePlots0_def by (rule comprehension_all2)
  then show "length plots0 = length slices"
    by (simp add: list_all2_lengthD)
  show "\<forall>j<length plots0. length (fst (plots0 ! j)) = length (snd (plots0 ! j))"
  proof (intro allI impI)
    fix j assume "j < length plots0"
    with all2 have "normalizedDistribution it (slices ! j) xStep max_percentile raw
                      = Inr (plots0 ! j)"
      by (simp add: list_all2_conv_all_nth)
    then show "length (fst (plots0 ! j)) = length (snd (plots0 ! j))"
      using normalizedDistribution_lengths [of it "slices ! j" xStep max_percentile raw
          "fst (plots0 ! j)" "snd (plots0 ! j)"]
      by simp
  qed
qed

lemma perSlicePlots0_example:
  "perSlicePlots0 example_iterator [slice_a, slice_b, slice_a] 500 100 True =
     Inr [([250, 750], [3 / 2500, 1 / 1250]), ([250], [1 / 500]),
          ([250, 750], [3 / 2500, 1 / 1250])]"
  by (simp add: perSlicePlots0_def density_slice_a density_slice_b)

lemma main_stability_example:
  "main_stability example_iterator [slice_a, slice_b, slice_a] 500 100 True empty_state =
     Inr \<lparr>plotDataMap =
            [''stability'' \<mapsto>
               [([250, 750], [3 / 2500, 1 / 1250]), ([250, 750], [1 / 500, 0]),
                ([250, 750], [3 / 2500, 1 / 1250])]],
          printed = [''  * Calculating stability plot ... '', ''done.'']\<rparr>"
  by (simp add: main_stability_def perSlicePlots0_example perSlicePlots_def empty_state_def)

text \<open>
  Claim C5. When the series has more than one slice and the density curves \<open>plots0\<close> of
  its slices have been computed, the stability branch stores one curve per slice under
  \<^verbatim>\<open>"stability"\<close>. \<open>fullXs\<close> is the x-sequence of a curve of \<open>plots0\<close> of greatest length, the
  first such curve; curve \<open>j\<close> of the result has the x-sequence \<open>fullXs\<close> and the y-sequence
  of curve \<open>j\<close> of \<open>plots0\<close> followed by exactly \<open>length fullXs - length ys\<close> zeros, which
  makes its length \<open>length fullXs\<close>.
\<close>

theorem main_stability_padding:
  assumes "1 < length slices"
    and "perSlicePlots0 it slices xStep max_percentile raw = Inr plots0"
  shows "\<exists>fullXs plots i.
           main_stability it slices xStep max_percentile raw st =
             Inr (st\<lparr>plotDataMap := (plotDataMap st)(''stability'' \<mapsto> plots),
                     printed := printed st
                       @ [''  * Calculating stability plot ... '', ''done.'']\<rparr>) \<and>
           i < length plots0 \<and> fullXs = fst (plots0 ! i) \<and>
           (\<forall>j<length plots0. length (fst (plots0 ! j)) \<le> length fullXs) \<and>
           (\<forall>j<i. length (fst (plots0 ! j)) < length fullXs) \<and>
           length plots = length slices \<and>
           (\<forall>j<length plots0.
              plots ! j =
                (fullXs,
                 snd (plots0 ! j) @ replicate (length fullXs - length (snd (plots0 ! j))) 0) \<and>
              length (snd (plots ! j)) = length fullXs)"
proof -
  note lens = perSlicePlots0_lengths [OF assms(2)]
  from lens(1) assms(1) have ne: "map fst plots0 \<noteq> []"
    by auto
  from py_max_key_first [OF ne, of length]
  obtain fullXs i where key: "py_max_key length (map fst plots0) = Inr fullXs"
    and i: "i < length plots0" "fullXs = fst (plots0 ! i)"
    and le: "\<forall>j<length plots0. length (fst (plots0 ! j)) \<le> length fullXs"
    and lt: "\<forall>j<i. length (fst (plots0 ! j)) < length fullXs"
    by (auto simp add: nth_map)
  define plots where
    "plots = map (\<lambda>(xs, ys). (fullXs, ys @ replicate (length fullXs - length ys) 0)) plots0"
  have run: "main_stability it slices xStep max_percentile raw st =
               Inr (st\<lparr>plotDataMap := (plotDataMap st)(''stability'' \<mapsto> plots),
                       printed := printed st
                         @ [''  * Calculating stability plot ... '', ''done.'']\<rparr>)"
    using assms key by (simp add: main_stability_def perSlicePlots_def plots_def)
  have len: "length plots = length slices"
    using lens(1) by (simp add: plots_def)
  have each: "\<forall>j<length plots0.
      plots ! j =
        (fullXs, snd (plots0 ! j) @ replicate (length fullXs - length (snd (plots0 ! j))) 0) \<and>
      length (snd (plots ! j)) = length fullXs"
  proof (intro allI impI)
    fix j assume j: "j < length plots0"
    then have pj: "plots ! j =
        (fullXs, snd (plots0 ! j) @ replicate (length fullXs - length (snd (plots0 ! j))) 0)"
      by (simp add: plots_def case_prod_beta)
    from j le lens(2) have "length (snd (plots0 ! j)) \<le> length fullXs"
      by metis
    with pj show "plots ! j =
        (fullXs, snd (plots0 ! j) @ replicate (length fullXs - length (snd (plots0 ! j))) 0) \<and>
      length (snd (plots ! j)) = length fullXs"
      by simp
  qed
  from run i le lt len each show ?thesis
    by blast
qed

theorem main_stability_padding_witness:
  "1 < length [slice_a, slice_b, slice_a] \<and>
   perSlicePlots0 example_iterator [slice_a, slice_b, slice_a] 500 100 True =
     Inr [([250, 750], [3 / 2500, 1 / 1250]), ([250], [1 / 500]),
          ([250, 750], [3 / 2500, 1 / 1250])] \<and>
   (\<exists>plots. main_stability example_iterator [slice_a, slice_b, slice_a] 500 100 True empty_state =
        Inr (empty_state\<lparr>plotDataMap := (plotDataMap empty_state)(''stability'' \<mapsto> plots),
                printed := printed empty_state
                       @ [''  * Calculating stability plot ... '', ''done.'']\<rparr>) \<and>
      length plots = 3 \<and>
      plots ! 1 = ([250, 750], [1 / 500, 0]))"
proof -
  let ?plots0 = "[([250, 750], [3 / 2500, 1 / 1250]), ([250], [1 / 500]),
          ([250, 750], [3 / 2500, 1 / 1250])] :: curve list"
  have long: "1 < length [slice_a, slice_b, slice_a]"
    by simp
  from main_stability_padding [OF long perSlicePlots0_example, of empty_state]
  obtain fullXs plots i where run:
      "main_stability example_iterator [slice_a, slice_b, slice_a] 500 100 True empty_state =
         Inr (empty_state\<lparr>plotDataMap := (plotDataMap empty_state)(''stability'' \<mapsto> plots),
                 printed := printed empty_state
                        @ [''  * Calculating stability plot ... '', ''done.'']\<rparr>)"
    and i: "i < length ?plots0" "fullXs = fst (?plots0 ! i)"
    and len: "length plots = length [slice_a, slice_b, slice_a]"
    and each: "\<forall>j<length ?plots0. plots ! j =
                (fullXs,
                 snd (?plots0 ! j) @ replicate (length fullXs - length (snd (?plots0 ! j))) 0) \<and>
              length (snd (plots ! j)) = length fullXs"
    by blast
  from each have "length (snd (plots ! 0)) = length fullXs"
    and "plots ! 0 =
      (fullXs, snd (?plots0 ! 0) @ replicate (length fullXs - length (snd (?plots0 ! 0))) 0)"
    by auto
  then have l2: "length fullXs \<ge> 2"
    by simp
  from i have "i = 0 \<or> i = 1 \<or> i = 2"
    by auto
  with i(2) l2 have full: "fullXs = [250, 750]"
    by auto
  from each have "plots ! 1 =
      (fullXs, snd (?plots0 ! 1) @ replicate (length fullXs - length (snd (?plots0 ! 1))) 0)"
    by auto
  with full have "plots ! 1 = ([250, 750], [1 / 500, 0])"
    by (simp add: numeral_2_eq_2)
  with run len long perSlicePlots0_example show ?thesis
    by auto
qed

text \<open>
  Claim C8, as the code has it. When the series has fewer than two slices the stability
  branch raises nothing: it computes no curve, leaves \<^verbatim>\<open>plotDataMap\<close> as it was, prints the
  warning that there is nothing to plot, and returns, so that \<^verbatim>\<open>main\<close> goes on with the
  other analyses.
\<close>

theorem main_stability_too_few_slices:
  "length slices < 2 \<Longrightarrow>
   main_stability it slices xStep max_percentile raw st =
     Inr (st\<lparr>printed := printed st
               @ [''*WARNING*: Nothing to plot for stability analysis.'']\<rparr>)"
  by (simp add: main_stability_def)

theorem main_stability_too_few_slices_witness:
  "length [slice_b] < 2 \<and>
   main_stability example_iterator [slice_b] 500 97.5 False empty_state =
     Inr (empty_state\<lparr>printed := printed empty_state
               @ [''*WARNING*: Nothing to plot for stability analysis.'']\<rparr>)"
proof -
  have few: "length [slice_b] < 2"
    by simp
  from main_stability_too_few_slices [OF few] few show ?thesis
    by blast
qed

text \<open>
  The stability branch on a series of one slice: it returns, with the warning printed
  and no entry in \<^verbatim>\<open>plotDataMap\<close>; no error is raised.
\<close>

theorem main_stability_single_slice_returns:
  "main_stability example_iterator [slice_a] 500 100 True empty_state =
     Inr \<lparr>plotDataMap = Map.empty,
          printed = [''*WARNING*: Nothing to plot for stability analysis.'']\<rparr>"
  by (simp add: main_stability_def empty_state_def)

end
